theory Spec2Isabelle
  imports Complex_Main "HOL-Library.Word" "HOL-Library.Log_Nat"
begin

section \<open>Notebook rendering of tiles: a model of \<^verbatim>\<open>pyrasterframes/rf_ipython.py\<close>\<close>

text \<open>
  The module is glue between three libraries: matplotlib draws a tile, the \<^verbatim>\<open>base64\<close>
  module encodes the PNG, and pandas assembles the table. The functions of the module are
  translated line by line; what the libraries do is either written out (base64, following
  RFC 4648, which \<^verbatim>\<open>base64.b64encode\<close> implements) or taken as a parameter (the
  drawing backend and the table renderer, collected in the record \<open>env\<close>). A Python
  exception is a value \<open>Inl e\<close> of a sum type, a normal return is \<open>Inr v\<close>, and Python's
  \<^verbatim>\<open>None\<close> is the option value \<open>None\<close>. The registration of the formatter with a running
  IPython shell, done once when the module is imported, is not part of the model.
\<close>

subsection \<open>Exceptions\<close>

datatype error =
    TypeError
  | OverflowError
  | ZeroDivisionError
  | External string

subsection \<open>Base64 (the \<^verbatim>\<open>base64\<close> module of the standard library)\<close>

type_synonym byte = "8 word"

definition b64_alphabet :: string where
  "b64_alphabet = ''ABCDEFGHIJKLMNOPQRSTUVWXYZabcdefghijklmnopqrstuvwxyz0123456789+/''"

definition b64_char :: "nat \<Rightarrow> char" where
  "b64_char i = b64_alphabet ! i"

definition b64_pad :: char where
  "b64_pad = CHR ''=''"

text \<open>
  Three bytes become four characters, each naming six bits; a final group of one or two
  bytes is padded with \<open>=\<close>. The shifts and masks of the encoder are written as division
  and remainder on the bytes' values. No line break is ever produced.
\<close>

fun b64encode :: "byte list \<Rightarrow> string" where
  "b64encode (a # b # c # rest) =
     [b64_char (unat a div 4),
      b64_char ((unat a mod 4) * 16 + unat b div 16),
      b64_char ((unat b mod 16) * 4 + unat c div 64),
      b64_char (unat c mod 64)] @ b64encode rest"
| "b64encode [a, b] =
     [b64_char (unat a div 4),
      b64_char ((unat a mod 4) * 16 + unat b div 16),
      b64_char ((unat b mod 16) * 4),
      b64_pad]"
| "b64encode [a] =
     [b64_char (unat a div 4),
      b64_char ((unat a mod 4) * 16),
      b64_pad,
      b64_pad]"
| "b64encode [] = []"

text \<open>
  \<^verbatim>\<open>base64.b64encode(s)\<close> as Python calls it: the argument is whatever object the caller
  passes, and an argument that is not bytes-like (here: \<^verbatim>\<open>None\<close>) raises \<^verbatim>\<open>TypeError\<close>.
\<close>

definition py_b64encode :: "byte list option \<Rightarrow> error + string" where
  "py_b64encode s = (case s of None \<Rightarrow> Inl TypeError | Some bs \<Rightarrow> Inr (b64encode bs))"

text \<open>
  The decoder, used to state the round trip. It is strict: the input is a sequence of
  groups of four characters of the alphabet, and only the last group may be padded.
\<close>

definition b64_val :: "char \<Rightarrow> nat option" where
  "b64_val c = map_of (zip b64_alphabet [0..<64]) c"

definition b64_quad :: "char \<Rightarrow> char \<Rightarrow> char \<Rightarrow> char \<Rightarrow> byte list option" where
  "b64_quad c0 c1 c2 c3 =
     (case (b64_val c0, b64_val c1) of
        (Some s0, Some s1) \<Rightarrow>
          (if c2 = b64_pad \<and> c3 = b64_pad then Some [of_nat (s0 * 4 + s1 div 16)]
           else (case b64_val c2 of
                   None \<Rightarrow> None
                 | Some s2 \<Rightarrow>
                     (if c3 = b64_pad
                      then Some [of_nat (s0 * 4 + s1 div 16),
                                 of_nat ((s1 mod 16) * 16 + s2 div 4)]
                      else (case b64_val c3 of
                              None \<Rightarrow> None
                            | Some s3 \<Rightarrow>
                                Some [of_nat (s0 * 4 + s1 div 16),
                                      of_nat ((s1 mod 16) * 16 + s2 div 4),
                                      of_nat ((s2 mod 4) * 64 + s3)]))))
      | _ \<Rightarrow> None)"

fun b64decode :: "string \<Rightarrow> byte list option" where
  "b64decode (c0 # c1 # c2 # c3 # rest) =
     (case b64_quad c0 c1 c2 c3 of
        None \<Rightarrow> None
      | Some bs \<Rightarrow>
          (if rest = [] then Some bs
           else if length bs = 3 then map_option ((@) bs) (b64decode rest)
           else None))"
| "b64decode [] = Some []"
| "b64decode _ = None"

subsection \<open>Tiles\<close>

text \<open>
  Modelled from the spec: the class \<^verbatim>\<open>pyrasterframes.rf_types.Tile\<close> is not among the
  sources. The module reads three attributes of a tile: \<^verbatim>\<open>cells\<close> (a 2-D numeric grid,
  or \<^verbatim>\<open>None\<close>), \<^verbatim>\<open>dimensions()\<close> (the list \<^verbatim>\<open>[width, height]\<close>) and \<^verbatim>\<open>cell_type\<close>, of
  which only its \<^verbatim>\<open>__repr__()\<close> is used.
\<close>

type_synonym grid = "int list list"

record tile =
  cells :: "grid option"
  dimensions :: "int \<times> int"
  cell_type :: string

subsection \<open>Decimal text of an integer (\<^verbatim>\<open>str.format\<close> on the dimensions)\<close>

definition digit_char :: "nat \<Rightarrow> char" where
  "digit_char d = ''0123456789'' ! d"

function str_nat :: "nat \<Rightarrow> string" where
  "str_nat n = (if n < 10 then [digit_char n] else str_nat (n div 10) @ [digit_char (n mod 10)])"
  by pat_completeness auto
termination
  by (relation "measure id") auto

declare str_nat.simps [simp del]

definition str_int :: "int \<Rightarrow> string" where
  "str_int i = (if i < 0 then CHR ''-'' # str_nat (nat (- i)) else str_nat (nat i))"

subsection \<open>\<^verbatim>\<open>tile_to_png\<close>\<close>

text \<open>
  Python computes the figure size \<^verbatim>\<open>nominal_size * width / dpi\<close> in IEEE double precision:
  \<^verbatim>\<open>nominal_size\<close> is the float literal \<^verbatim>\<open>5.5\<close>, while \<^verbatim>\<open>width\<close>, \<^verbatim>\<open>height\<close> and \<^verbatim>\<open>dpi\<close> are
  ints. A double is a rational number (the finite doubles are rationals), an infinity
  with its sign (\<open>True\<close> for the negative one) or a NaN. The sign of a zero is not
  represented; no operation used here depends on it.
\<close>

datatype double =
    Finite rat
  | Infinity bool
  | NaN

text \<open>
  \<open>ilog2 x\<close> is the integer \<open>k\<close> with \<open>2 ^ k \<le> x < 2 ^ (k + 1)\<close> for a positive rational \<open>x\<close>,
  found from the bit lengths of numerator and denominator. \<open>round_half_even\<close> rounds to
  the nearest integer, a tie to the even one. \<open>round_double\<close> is the rounding of IEEE 754
  binary64 in the default mode: 53 significant bits, the least exponent that of the
  subnormal numbers, and an infinity when the rounded magnitude reaches \<open>2 ^ 1024\<close>.
\<close>

definition ilog2 :: "rat \<Rightarrow> int" where
  "ilog2 x =
     (case quotient_of x of
        (p, q) \<Rightarrow> (let k = bitlen p - bitlen q in if 2 powi k \<le> x then k else k - 1))"

definition round_half_even :: "rat \<Rightarrow> int" where
  "round_half_even y =
     (let f = \<lfloor>y\<rfloor>; r = y - of_int f
      in if r < 1 / 2 then f else if 1 / 2 < r then f + 1 else if even f then f else f + 1)"

definition round_double :: "rat \<Rightarrow> double" where
  "round_double x =
     (if x = 0 then Finite 0
      else
        (let e = max (ilog2 \<bar>x\<bar> - 52) (- 1074);
             r = of_int (round_half_even (x / 2 powi e)) * 2 powi e
         in if 2 ^ 1024 \<le> \<bar>r\<bar> then Infinity (x < 0) else Finite r))"

text \<open>
  The conversion of a Python int to a float raises \<^verbatim>\<open>OverflowError\<close> where the correctly
  rounded value is not finite. Products and quotients of doubles round the exact result;
  they overflow to an infinity without raising.
\<close>

definition float_of_int :: "int \<Rightarrow> error + double" where
  "float_of_int n =
     (case round_double (of_int n) of
        Finite r \<Rightarrow> Inr (Finite r)
      | _ \<Rightarrow> Inl OverflowError)"

fun double_mul :: "double \<Rightarrow> double \<Rightarrow> double" where
  "double_mul NaN _ = NaN"
| "double_mul _ NaN = NaN"
| "double_mul (Finite a) (Finite b) = round_double (a * b)"
| "double_mul (Finite a) (Infinity t) = (if a = 0 then NaN else Infinity ((a < 0) \<noteq> t))"
| "double_mul (Infinity s) (Finite b) = (if b = 0 then NaN else Infinity (s \<noteq> (b < 0)))"
| "double_mul (Infinity s) (Infinity t) = Infinity (s \<noteq> t)"

fun double_div :: "double \<Rightarrow> double \<Rightarrow> double" where
  "double_div NaN _ = NaN"
| "double_div _ NaN = NaN"
| "double_div (Finite a) (Finite b) = round_double (a / b)"
| "double_div (Finite a) (Infinity t) = Finite 0"
| "double_div (Infinity s) (Finite b) = Infinity (s \<noteq> (b < 0))"
| "double_div (Infinity s) (Infinity t) = NaN"

text \<open>
  \<^verbatim>\<open>x * n\<close> and \<^verbatim>\<open>x / n\<close> for a float \<^verbatim>\<open>x\<close> and an int \<^verbatim>\<open>n\<close>: the int is converted first, and
  a division by zero raises \<^verbatim>\<open>ZeroDivisionError\<close>.
\<close>

definition float_times_int :: "double \<Rightarrow> int \<Rightarrow> error + double" where
  "float_times_int a n =
     (case float_of_int n of
        Inl e \<Rightarrow> Inl e
      | Inr b \<Rightarrow> Inr (double_mul a b))"

definition float_over_int :: "double \<Rightarrow> int \<Rightarrow> error + double" where
  "float_over_int a n =
     (case float_of_int n of
        Inl e \<Rightarrow> Inl e
      | Inr b \<Rightarrow> if b = Finite 0 then Inl ZeroDivisionError else Inr (double_div a b))"

text \<open>
  What the function hands to matplotlib before \<^verbatim>\<open>canvas.print_png\<close>: the figure size in
  inches, the grid shown by \<^verbatim>\<open>imshow\<close>, the aspect, the (empty) tick lists and the title.
  The two sizes are computed first, the width before the height, and an exception of
  that arithmetic leaves the function.
\<close>

record figure =
  figsize :: "double \<times> double"
  image :: grid
  aspect :: string
  xticks :: "double list"
  yticks :: "double list"
  title :: string

definition dpi :: int where
  "dpi = 300"

definition nominal_size :: double where
  "nominal_size = round_double 5.5"

definition tile_figure :: "tile \<Rightarrow> grid \<Rightarrow> error + figure" where
  "tile_figure t g =
     (case dimensions t of
        (width, height) \<Rightarrow>
          (case float_times_int nominal_size width of
             Inl e \<Rightarrow> Inl e
           | Inr sw \<Rightarrow>
          (case float_over_int sw dpi of
             Inl e \<Rightarrow> Inl e
           | Inr fw \<Rightarrow>
          (case float_times_int nominal_size height of
             Inl e \<Rightarrow> Inl e
           | Inr sh \<Rightarrow>
          (case float_over_int sh dpi of
             Inl e \<Rightarrow> Inl e
           | Inr fh \<Rightarrow>
               Inr \<lparr>figsize = (fw, fh),
                    image = g,
                    aspect = ''equal'',
                    xticks = [],
                    yticks = [],
                    title = ''['' @ str_int width @ '', '' @ str_int height @ '']'' @ '', ''
                              @ cell_type t @ '')''\<rparr>)))))"

text \<open>
  The libraries the module calls, as parameters: \<open>print_png\<close> is matplotlib building the
  prepared figure and drawing it into PNG bytes, \<open>to_html\<close> is \<^verbatim>\<open>DataFrame.to_html\<close> and \<open>repr_html\<close> is
  \<^verbatim>\<open>DataFrame._repr_html_\<close>; both pandas routines read the global options. Each of them
  may raise. The types they mention are declared first.
\<close>

datatype opt_value =
    Opt_bool bool
  | Opt_int int
  | Opt_str string
  | Opt_none

type_synonym pd_options = "string \<Rightarrow> opt_value"

datatype val =
    Tile_val tile
  | Other_val string

record dataframe =
  columns :: "string list"
  rows :: "val list list"

record to_html_args =
  escape :: bool
  formatters :: "string \<Rightarrow> (val \<Rightarrow> error + string) option"
  render_links :: bool
  notebook :: bool
  max_rows :: opt_value
  max_cols :: opt_value
  show_dimensions :: opt_value

record env =
  print_png :: "figure \<Rightarrow> error + byte list"
  to_html :: "pd_options \<Rightarrow> dataframe \<Rightarrow> to_html_args \<Rightarrow> error + string"
  repr_html :: "pd_options \<Rightarrow> dataframe \<Rightarrow> error + string option"

definition tile_to_png :: "env \<Rightarrow> tile \<Rightarrow> error + byte list option" where
  "tile_to_png env t =
     (case cells t of
        None \<Rightarrow> Inr None
      | Some g \<Rightarrow>
          (case tile_figure t g of
             Inl e \<Rightarrow> Inl e
           | Inr fig \<Rightarrow>
               (case print_png env fig of
                  Inl e \<Rightarrow> Inl e
                | Inr output \<Rightarrow> Inr (Some output))))"

subsection \<open>\<^verbatim>\<open>tile_to_html\<close>\<close>

definition b64_img_html :: "string \<Rightarrow> string" where
  \<open>b64_img_html data = ''<img src="data:image/png;base64,'' @ data @ ''" />''\<close>

definition newline :: char where
  "newline = CHR 0x0A"

definition tile_to_html :: "env \<Rightarrow> tile \<Rightarrow> error + string" where
  "tile_to_html env t =
     (case tile_to_png env t of
        Inl e \<Rightarrow> Inl e
      | Inr png_bits \<Rightarrow>
          (case py_b64encode png_bits of
             Inl e \<Rightarrow> Inl e
           | Inr b64 \<Rightarrow> Inr (b64_img_html (filter (\<lambda>ch. ch \<noteq> newline) b64))))"

subsection \<open>\<^verbatim>\<open>pandas_df_to_html\<close>\<close>

text \<open>
  The pandas options are a global registry from option names to values; \<open>get_option\<close>
  reads it and \<open>set_option\<close> returns the registry updated. A value of a table is a
  \<^verbatim>\<open>Tile\<close> or any other object, of which the module uses only its \<^verbatim>\<open>__repr__()\<close>. A
  table has a list of column labels, which pandas allows to repeat, and a list of rows;
  a row lists its cells in the order of the columns, one cell for each column, and
  \<^verbatim>\<open>len(df)\<close> is the number of rows.
\<close>

definition get_option :: "pd_options \<Rightarrow> string \<Rightarrow> opt_value" where
  "get_option opts k = opts k"

definition set_option :: "pd_options \<Rightarrow> string \<Rightarrow> opt_value \<Rightarrow> pd_options" where
  "set_option opts k v = opts(k := v)"

text \<open>Python's truth value of an option, as \<^verbatim>\<open>not\<close> tests it.\<close>

definition truthy :: "opt_value \<Rightarrow> bool" where
  "truthy v =
     (case v of
        Opt_bool b \<Rightarrow> b
      | Opt_int i \<Rightarrow> i \<noteq> 0
      | Opt_str s \<Rightarrow> s \<noteq> []
      | Opt_none \<Rightarrow> False)"

definition isinstance_Tile :: "val \<Rightarrow> bool" where
  "isinstance_Tile v = (case v of Tile_val _ \<Rightarrow> True | Other_val _ \<Rightarrow> False)"

text \<open>
  \<^verbatim>\<open>df.iloc[0]\<close> is the first row as a \<^verbatim>\<open>Series\<close> indexed by the column labels, and
  \<^verbatim>\<open>df.iloc[0][c]\<close> selects from it by label: the cell itself when exactly one column is
  labelled \<^verbatim>\<open>c\<close>, and a \<^verbatim>\<open>Series\<close> of all the cells under that label otherwise. A
  \<^verbatim>\<open>Series\<close> is not a \<^verbatim>\<open>Tile\<close>.
\<close>

datatype item =
    Cell val
  | Series "val list"

definition series_getitem :: "string list \<Rightarrow> val list \<Rightarrow> string \<Rightarrow> item" where
  "series_getitem labels vals c =
     (case map snd (filter (\<lambda>(l, v). l = c) (zip labels vals)) of
        [v] \<Rightarrow> Cell v
      | vs \<Rightarrow> Series vs)"

definition item_isinstance_Tile :: "item \<Rightarrow> bool" where
  "item_isinstance_Tile x = (case x of Cell v \<Rightarrow> isinstance_Tile v | Series _ \<Rightarrow> False)"

text \<open>Lines 72 to 75: the loop over \<^verbatim>\<open>df.columns\<close>, sampling \<^verbatim>\<open>df.iloc[0][c]\<close>.\<close>

definition tile_cols :: "string list \<Rightarrow> val list \<Rightarrow> string list" where
  "tile_cols cols row0 =
     filter (\<lambda>c. item_isinstance_Tile (series_getitem cols row0 c)) cols"

text \<open>Lines 77 to 82: the closure \<^verbatim>\<open>_safe_tile_to_html\<close>.\<close>

definition safe_tile_to_html :: "env \<Rightarrow> val \<Rightarrow> error + string" where
  "safe_tile_to_html env t =
     (case t of
        Tile_val tile_obj \<Rightarrow> tile_to_html env tile_obj
      | Other_val r \<Rightarrow> Inr r)"

text \<open>
  Lines 85 and 90 to 97: the dictionary of formatters and the keyword arguments of
  \<^verbatim>\<open>df.to_html\<close>, the three options read when the call is made.
\<close>

definition to_html_kwargs :: "env \<Rightarrow> pd_options \<Rightarrow> string list \<Rightarrow> to_html_args" where
  "to_html_kwargs env opts tcols =
     \<lparr>escape = False,
      formatters = map_of (map (\<lambda>c. (c, safe_tile_to_html env)) tcols),
      render_links = True,
      notebook = True,
      max_rows = get_option opts ''display.max_rows'',
      max_cols = get_option opts ''display.max_columns'',
      show_dimensions = get_option opts ''display.show_dimensions''\<rparr>"

text \<open>
  The function returns its result (an exception, \<^verbatim>\<open>None\<close> or the HTML) together with the
  option registry it leaves behind.
\<close>

definition pandas_df_to_html ::
    "env \<Rightarrow> pd_options \<Rightarrow> dataframe \<Rightarrow> (error + string option) \<times> pd_options" where
  "pandas_df_to_html env opts df =
     (if \<not> truthy (get_option opts ''display.notebook_repr_html'') then (Inr None, opts)
      else
        (case rows df of
           [] \<Rightarrow> (repr_html env opts df, opts)
         | row0 # _ \<Rightarrow>
             (let tcols = tile_cols (columns df) row0;
                  default_max_colwidth = get_option opts ''display.max_colwidth'';
                  opts1 = set_option opts ''display.max_colwidth'' (Opt_int (- 1))
              in (case to_html env opts1 df (to_html_kwargs env opts1 tcols) of
                    Inl e \<Rightarrow> (Inl e, opts1)
                  | Inr return_html \<Rightarrow>
                      (Inr (Some return_html),
                       set_option opts1 ''display.max_colwidth'' default_max_colwidth)))))"

subsection \<open>Concrete collaborators and inputs\<close>

text \<open>
  For evaluating the module at concrete inputs: a backend that returns the eight bytes
  of the PNG signature for every figure, and a small table renderer that, like pandas,
  applies the formatter found under a column's label to each cell of the column, prints
  the other cells as they are, and lets an exception of a formatter escape.
\<close>

definition png_signature :: "byte list" where
  "png_signature = [0x89, 0x50, 0x4E, 0x47, 0x0D, 0x0A, 0x1A, 0x0A]"

definition cell_html :: "to_html_args \<Rightarrow> string \<Rightarrow> val \<Rightarrow> error + string" where
  "cell_html args c v =
     (case formatters args c of
        Some f \<Rightarrow> f v
      | None \<Rightarrow> (case v of Tile_val _ \<Rightarrow> Inr ''Tile'' | Other_val r \<Rightarrow> Inr r))"

fun join_cells :: "(error + string) list \<Rightarrow> error + string" where
  "join_cells [] = Inr []"
| "join_cells (x # xs) =
     (case x of
        Inl e \<Rightarrow> Inl e
      | Inr s \<Rightarrow>
          (case join_cells xs of
             Inl e \<Rightarrow> Inl e
           | Inr r \<Rightarrow> Inr (''<td>'' @ s @ ''</td>'' @ r)))"

definition cells_to_html :: "pd_options \<Rightarrow> dataframe \<Rightarrow> to_html_args \<Rightarrow> error + string" where
  "cells_to_html opts df args =
     join_cells
       (concat (map (\<lambda>row. map (\<lambda>(c, v). cell_html args c v) (zip (columns df) row))
                  (rows df)))"

definition demo_env :: env where
  "demo_env =
     \<lparr>print_png = (\<lambda>fig. Inr png_signature),
      to_html = cells_to_html,
      repr_html = (\<lambda>opts df. Inr (Some ''<div></div>''))\<rparr>"

definition demo_options :: pd_options where
  "demo_options =
     (\<lambda>k. Opt_none)
       (''display.notebook_repr_html'' := Opt_bool True,
        ''display.max_colwidth'' := Opt_int 50,
        ''display.max_rows'' := Opt_int 60,
        ''display.max_columns'' := Opt_int 20,
        ''display.show_dimensions'' := Opt_str ''truncate'')"

definition demo_tile :: tile where
  "demo_tile = \<lparr>cells = Some [[1, 2], [3, 4]], dimensions = (2, 2), cell_type = ''int32''\<rparr>"

definition unit_tile :: tile where
  "unit_tile = \<lparr>cells = Some [[7]], dimensions = (1, 1), cell_type = ''int32''\<rparr>"

definition five_tile :: tile where
  "five_tile = \<lparr>cells = Some [[1, 2, 3, 4, 5]], dimensions = (5, 1), cell_type = ''int32''\<rparr>"

definition blank_tile :: tile where
  "blank_tile = \<lparr>cells = None, dimensions = (0, 0), cell_type = ''int32''\<rparr>"

definition demo_row :: "val \<Rightarrow> string \<Rightarrow> val list" where
  "demo_row v ident = [Other_val ident, v]"

definition demo_df :: dataframe where
  "demo_df =
     \<lparr>columns = [''id'', ''tile''],
      rows = [demo_row (Tile_val demo_tile) ''1'', demo_row (Other_val ''nan'') ''2'']\<rparr>"

definition blank_df :: dataframe where
  "blank_df = \<lparr>columns = [''id'', ''tile''], rows = [demo_row (Tile_val blank_tile) ''1'']\<rparr>"

definition empty_df :: dataframe where
  "empty_df = \<lparr>columns = [''id'', ''tile''], rows = []\<rparr>"

definition twin_df :: dataframe where
  "twin_df =
     \<lparr>columns = [''tile'', ''tile''], rows = [[Tile_val demo_tile, Tile_val demo_tile]]\<rparr>"

section \<open>Base64: the round trip\<close>

lemma b64_alphabet_length: "length b64_alphabet = 64"
  by (simp add: b64_alphabet_def)

lemma b64_alphabet_distinct: "distinct b64_alphabet"
  by (simp add: b64_alphabet_def)

lemma b64_val_char: "i < 64 \<Longrightarrow> b64_val (b64_char i) = Some i"
  unfolding b64_val_def b64_char_def
  using map_of_zip_nth[of b64_alphabet "[0..<64]" i]
  by (simp add: b64_alphabet_length b64_alphabet_distinct)

lemma b64_char_in: "i < 64 \<Longrightarrow> b64_char i \<in> set b64_alphabet"
  by (simp add: b64_char_def b64_alphabet_length)

lemma b64_pad_notin: "b64_pad \<notin> set b64_alphabet"
  by (simp add: b64_pad_def b64_alphabet_def)

lemma line_breaks_notin: "newline \<notin> set b64_alphabet" "CHR 0x0D \<notin> set b64_alphabet"
  by (simp_all add: b64_alphabet_def newline_def)

lemma b64_char_not_pad: "i < 64 \<Longrightarrow> b64_char i \<noteq> b64_pad"
  using b64_char_in b64_pad_notin by metis

lemma byte_bound: "unat (a :: byte) < 256"
  using unsigned_less[of a] by simp

lemma of_nat_unat_byte: "of_nat (unat (a :: byte)) = a"
  by simp

lemma sextet_bounds:
  assumes "a < (256::nat)" "b < 256" "c < 256"
  shows "a div 4 < 64" "(a mod 4) * 16 + b div 16 < 64"
        "(b mod 16) * 4 + c div 64 < 64" "c mod 64 < 64"
        "(a mod 4) * 16 < 64" "(b mod 16) * 4 < 64"
  using assms by auto

lemma sextet_join:
  assumes "a < (256::nat)" "b < 256" "c < 256"
  shows "(a div 4) * 4 + ((a mod 4) * 16 + b div 16) div 16 = a"
        "(((a mod 4) * 16 + b div 16) mod 16) * 16 + ((b mod 16) * 4 + c div 64) div 4 = b"
        "(((b mod 16) * 4 + c div 64) mod 4) * 64 + c mod 64 = c"
        "(a div 4) * 4 + ((a mod 4) * 16) div 16 = a"
        "(((a mod 4) * 16 + b div 16) mod 16) * 16 + ((b mod 16) * 4) div 4 = b"
  using assms by auto

lemma b64_quad3:
  "b64_quad (b64_char (unat a div 4))
            (b64_char ((unat a mod 4) * 16 + unat b div 16))
            (b64_char ((unat b mod 16) * 4 + unat c div 64))
            (b64_char (unat c mod 64)) = Some [a, b, (c::byte)]"
proof -
  have A: "unat a < 256" and B: "unat b < 256" and C: "unat c < 256"
    by (rule byte_bound)+
  note bs = sextet_bounds[OF A B C]
  note js = sextet_join[OF A B C]
  show ?thesis
    unfolding b64_quad_def
    by (simp only: b64_val_char bs js b64_char_not_pad of_nat_unat_byte
          option.case prod.case if_False simp_thms)
qed

lemma b64_quad2:
  "b64_quad (b64_char (unat a div 4))
            (b64_char ((unat a mod 4) * 16 + unat b div 16))
            (b64_char ((unat b mod 16) * 4))
            b64_pad = Some [a, (b::byte)]"
proof -
  have A: "unat a < 256" and B: "unat b < 256"
    by (rule byte_bound)+
  note bs = sextet_bounds[OF A B B]
  note js = sextet_join[OF A B B]
  show ?thesis
    unfolding b64_quad_def
    by (simp only: b64_val_char bs js b64_char_not_pad of_nat_unat_byte
          option.case prod.case if_False if_True simp_thms)
qed

lemma b64_quad1:
  "b64_quad (b64_char (unat a div 4))
            (b64_char ((unat a mod 4) * 16))
            b64_pad
            b64_pad = Some [a::byte]"
proof -
  have A: "unat a < 256"
    by (rule byte_bound)
  note bs = sextet_bounds[OF A A A]
  note js = sextet_join[OF A A A]
  show ?thesis
    unfolding b64_quad_def
    by (simp only: b64_val_char bs js of_nat_unat_byte
          option.case prod.case if_True simp_thms)
qed

lemma b64encode_nonempty: "bs \<noteq> [] \<Longrightarrow> b64encode bs \<noteq> []"
  by (induction bs rule: b64encode.induct) simp_all

lemma b64decode_b64encode: "b64decode (b64encode bs) = Some bs"
proof (induction bs rule: b64encode.induct)
  case (1 a b c rest)
  show ?case
  proof (cases "rest = []")
    case True
    then show ?thesis by (simp add: b64_quad3)
  next
    case False
    then have "b64encode rest \<noteq> []" by (rule b64encode_nonempty)
    then show ?thesis using 1 by (simp add: b64_quad3)
  qed
next
  case (2 a b)
  show ?case by (simp add: b64_quad2)
next
  case (3 a)
  show ?case by (simp add: b64_quad1)
next
  case 4
  show ?case by simp
qed

lemma b64encode_chars: "set (b64encode bs) \<subseteq> insert b64_pad (set b64_alphabet)"
proof (induction bs rule: b64encode.induct)
  case (1 a b c rest)
  have A: "unat a < 256" and B: "unat b < 256" and C: "unat c < 256"
    by (rule byte_bound)+
  note bs = sextet_bounds[OF A B C]
  show ?case using 1 by (simp add: b64_char_in bs)
next
  case (2 a b)
  have A: "unat a < 256" and B: "unat b < 256"
    by (rule byte_bound)+
  note bs = sextet_bounds[OF A B B]
  show ?case by (simp add: b64_char_in bs)
next
  case (3 a)
  have A: "unat a < 256"
    by (rule byte_bound)
  note bs = sextet_bounds[OF A A A]
  show ?case by (simp add: b64_char_in bs)
next
  case 4
  show ?case by simp
qed

lemma b64encode_no_line_break:
  "newline \<notin> set (b64encode bs)" "CHR 0x0D \<notin> set (b64encode bs)"
  using b64encode_chars[of bs] line_breaks_notin
  by (auto simp: b64_pad_def newline_def)

lemma replace_newline_b64encode: "filter (\<lambda>ch. ch \<noteq> newline) (b64encode bs) = b64encode bs"
  using b64encode_no_line_break(1)[of bs] by (auto simp: filter_id_conv)

section \<open>Double precision: rounding and its error\<close>

lemma ilog2_bounds:
  assumes "0 < x"
  shows "2 powi (ilog2 x) \<le> x" and "x < 2 powi (ilog2 x + 1)"
proof -
  obtain p q where pq: "quotient_of x = (p, q)" by (cases "quotient_of x")
  have q: "0 < q" using quotient_of_denom_pos[OF pq] .
  have x: "x = of_int p / of_int q" using quotient_of_div[OF pq] .
  have p: "0 < p" using assms q unfolding x by (simp add: zero_less_divide_iff)
  define a where "a = bitlen p"
  define b where "b = bitlen q"
  have a1: "1 \<le> a" using p bitlen_eq_zero_iff[of p] bitlen_nonneg[of p] by (simp add: a_def)
  have b1: "1 \<le> b" using q bitlen_eq_zero_iff[of q] bitlen_nonneg[of q] by (simp add: b_def)
  have pl: "(2::int) ^ nat (a - 1) \<le> p" and pu: "p < 2 ^ nat a"
    using bitlen_bounds[OF p] by (simp_all add: a_def)
  have ql: "(2::int) ^ nat (b - 1) \<le> q" and qu: "q < 2 ^ nat b"
    using bitlen_bounds[OF q] by (simp_all add: b_def)
  have plr: "(2::rat) ^ nat (a - 1) \<le> of_int p"
    using pl by (metis of_int_le_iff of_int_numeral of_int_power)
  have pur: "of_int p < (2::rat) ^ nat a"
    using pu by (metis of_int_less_iff of_int_numeral of_int_power)
  have qlr: "(2::rat) ^ nat (b - 1) \<le> of_int q"
    using ql by (metis of_int_le_iff of_int_numeral of_int_power)
  have qur: "of_int q < (2::rat) ^ nat b"
    using qu by (metis of_int_less_iff of_int_numeral of_int_power)
  have up: "x < 2 powi (a - b + 1)"
  proof -
    have "x < 2 ^ nat a / 2 ^ nat (b - 1)"
      unfolding x using p pur qlr by (intro frac_less) simp_all
    also have "\<dots> = 2 powi a / 2 powi (b - 1)"
      using a1 b1 by (simp add: power_int_nonneg_exp)
    also have "\<dots> = 2 powi (a - (b - 1))"
      by (simp add: power_int_diff)
    finally show ?thesis by (simp add: algebra_simps)
  qed
  have lo: "2 powi (a - b - 1) \<le> x"
  proof -
    have "(2::rat) powi (a - b - 1) = 2 powi ((a - 1) - b)" by (simp add: algebra_simps)
    also have "\<dots> = 2 powi (a - 1) / 2 powi b" by (simp add: power_int_diff)
    also have "\<dots> = 2 ^ nat (a - 1) / 2 ^ nat b"
      using a1 b1 by (simp add: power_int_nonneg_exp)
    also have "\<dots> \<le> x"
      unfolding x using p q plr qur by (intro frac_le) simp_all
    finally show ?thesis .
  qed
  have eq: "ilog2 x = (if 2 powi (a - b) \<le> x then a - b else a - b - 1)"
    by (simp add: ilog2_def pq a_def b_def Let_def)
  show "2 powi (ilog2 x) \<le> x"
    using lo by (simp add: eq)
  show "x < 2 powi (ilog2 x + 1)"
    using up by (auto simp: eq not_le)
qed

lemma round_half_even_error: "\<bar>of_int (round_half_even y) - y\<bar> \<le> 1 / 2"
proof -
  have "of_int \<lfloor>y\<rfloor> \<le> y" and "y < of_int \<lfloor>y\<rfloor> + 1" by linarith+
  then show ?thesis
    by (auto simp: round_half_even_def Let_def abs_le_iff)
qed

lemma ilog2_unique:
  assumes "0 < x" and "2 powi k \<le> x" and "x < 2 powi (k + 1)"
  shows "ilog2 x = k"
proof -
  have l: "2 powi (ilog2 x) \<le> x" and u: "x < 2 powi (ilog2 x + 1)"
    using ilog2_bounds[OF assms(1)] by simp_all
  have "\<not> ilog2 x < k"
  proof
    assume "ilog2 x < k"
    then have "ilog2 x + 1 \<le> k" by simp
    then have "(2::rat) powi (ilog2 x + 1) \<le> 2 powi k" by (rule power_int_increasing) simp
    with u assms(2) show False by linarith
  qed
  moreover have "\<not> k < ilog2 x"
  proof
    assume "k < ilog2 x"
    then have "k + 1 \<le> ilog2 x" by simp
    then have "(2::rat) powi (k + 1) \<le> 2 powi (ilog2 x)" by (rule power_int_increasing) simp
    with l assms(3) show False by linarith
  qed
  ultimately show ?thesis by simp
qed

lemma round_half_even_unique:
  assumes "\<bar>of_int m - y\<bar> < 1 / 2"
  shows "round_half_even y = m"
proof -
  have f: "of_int \<lfloor>y\<rfloor> \<le> y" "y < of_int \<lfloor>y\<rfloor> + 1" by linarith+
  have a: "rat_of_int m - y < 1 / 2" "- (rat_of_int m - y) < 1 / 2"
    using assms by (simp_all only: abs_less_iff)
  have "rat_of_int m < of_int \<lfloor>y\<rfloor> + 2" and "rat_of_int \<lfloor>y\<rfloor> - 1 < of_int m"
    using a f by linarith+
  then have "rat_of_int m < of_int (\<lfloor>y\<rfloor> + 2)" and "rat_of_int (\<lfloor>y\<rfloor> - 1) < of_int m"
    by simp_all
  then have "m < \<lfloor>y\<rfloor> + 2" and "\<lfloor>y\<rfloor> - 1 < m"
    by (simp_all only: of_int_less_iff)
  then consider "m = \<lfloor>y\<rfloor>" | "m = \<lfloor>y\<rfloor> + 1" by linarith
  then show ?thesis
  proof cases
    case 1
    have "y - of_int \<lfloor>y\<rfloor> < 1 / 2" using a(2) 1 by linarith
    then show ?thesis using 1 by (simp add: round_half_even_def Let_def)
  next
    case 2
    have "rat_of_int m = of_int \<lfloor>y\<rfloor> + 1" using 2 by simp
    then have "1 / 2 < y - of_int \<lfloor>y\<rfloor>" using a(1) by linarith
    then show ?thesis using 2 by (simp add: round_half_even_def Let_def)
  qed
qed

lemma round_double_normal_form:
  assumes lo: "2 powi (- 1022) \<le> \<bar>x\<bar>" and hi: "\<bar>x\<bar> < 2 ^ 1023"
  shows "round_double x =
           Finite (of_int (round_half_even (x / 2 powi (ilog2 \<bar>x\<bar> - 52)))
                   * 2 powi (ilog2 \<bar>x\<bar> - 52))"
    and "\<bar>of_int (round_half_even (x / 2 powi (ilog2 \<bar>x\<bar> - 52))) * 2 powi (ilog2 \<bar>x\<bar> - 52) - x\<bar>
           \<le> \<bar>x\<bar> / 2 ^ 53"
proof -
  have t: "0 < (2::rat) powi (- 1022)" by (rule zero_less_power_int) simp
  have pos: "0 < \<bar>x\<bar>" using lo t by linarith
  then have x0: "x \<noteq> 0" by simp
  define k where "k = ilog2 \<bar>x\<bar>"
  have kl: "2 powi k \<le> \<bar>x\<bar>" and ku: "\<bar>x\<bar> < 2 powi (k + 1)"
    using ilog2_bounds[OF pos] by (simp_all add: k_def)
  have lt: "(2::rat) powi (- 1022) < 2 powi (k + 1)" using lo ku by (rule le_less_trans)
  have "- 1022 < k + 1"
  proof (rule ccontr)
    assume "\<not> - 1022 < k + 1"
    then have "k + 1 \<le> - 1022" by simp
    then have "(2::rat) powi (k + 1) \<le> 2 powi (- 1022)"
      by (rule power_int_increasing) simp
    with lt show False by linarith
  qed
  then have e: "max (k - 52) (- 1074) = k - 52" by simp
  define m where "m = round_half_even (x / 2 powi (k - 52))"
  define r where "r = of_int m * (2::rat) powi (k - 52)"
  have p0: "0 < (2::rat) powi (k - 52)" by simp
  have "\<bar>r - x\<bar> = \<bar>of_int m - x / 2 powi (k - 52)\<bar> * 2 powi (k - 52)"
  proof -
    have "r - x = (of_int m - x / 2 powi (k - 52)) * 2 powi (k - 52)"
      using p0 by (simp add: r_def field_simps)
    then show ?thesis using p0 by (simp add: abs_mult)
  qed
  also have "\<dots> \<le> 1 / 2 * 2 powi (k - 52)"
    using round_half_even_error[of "x / 2 powi (k - 52)"] p0
    by (intro mult_right_mono) (simp_all add: m_def)
  also have "\<dots> = 2 powi k / 2 ^ 53"
  proof -
    have "(2::rat) powi (k - 52) = 2 powi k / 2 powi 52" by (simp add: power_int_diff)
    then show ?thesis by simp
  qed
  also have "\<dots> \<le> \<bar>x\<bar> / 2 ^ 53"
    using kl by (simp add: divide_right_mono)
  finally have err: "\<bar>r - x\<bar> \<le> \<bar>x\<bar> / 2 ^ 53" .
  have "\<bar>r\<bar> \<le> \<bar>x\<bar> + \<bar>r - x\<bar>" by simp
  also have "\<dots> \<le> \<bar>x\<bar> + \<bar>x\<bar> / 2 ^ 53" using err by simp
  also have "\<dots> \<le> 2 * \<bar>x\<bar>" using pos by (simp add: field_simps)
  also have "\<dots> < 2 * 2 ^ 1023" using hi by simp
  finally have "\<bar>r\<bar> < 2 ^ 1024" by simp
  then have "round_double x = Finite r"
    using x0 by (simp add: round_double_def Let_def k_def[symmetric] e m_def[symmetric]
        r_def[symmetric] not_le[symmetric] del: power_int_numeral)
  then show "round_double x =
           Finite (of_int (round_half_even (x / 2 powi (ilog2 \<bar>x\<bar> - 52)))
                   * 2 powi (ilog2 \<bar>x\<bar> - 52))"
    by (simp only: r_def m_def k_def)
  show "\<bar>of_int (round_half_even (x / 2 powi (ilog2 \<bar>x\<bar> - 52))) * 2 powi (ilog2 \<bar>x\<bar> - 52) - x\<bar>
           \<le> \<bar>x\<bar> / 2 ^ 53"
    using err by (simp only: r_def m_def k_def)
qed

lemma round_double_normal:
  assumes "2 powi (- 1022) \<le> \<bar>x\<bar>" and "\<bar>x\<bar> < 2 ^ 1023"
  obtains r where "round_double x = Finite r" and "\<bar>r - x\<bar> \<le> \<bar>x\<bar> / 2 ^ 53"
  using round_double_normal_form[OF assms] by blast

lemma round_double_eqI:
  assumes x: "0 < x" and kl: "2 powi k \<le> x" and ku: "x < 2 powi (k + 1)"
    and k1: "- 1022 \<le> k" and k2: "k \<le> 1022"
    and m: "\<bar>of_int m - x / 2 powi (k - 52)\<bar> < 1 / 2"
  shows "round_double x = Finite (of_int m * 2 powi (k - 52))"
proof -
  have ax: "\<bar>x\<bar> = x" using x by simp
  have "(2::rat) powi (- 1022) \<le> 2 powi k" using k1 by (rule power_int_increasing) simp
  then have lo: "2 powi (- 1022) \<le> \<bar>x\<bar>" using kl ax by linarith
  have "(2::rat) powi (k + 1) \<le> 2 powi 1023"
    using k2 by (intro power_int_increasing) simp_all
  then have hi: "\<bar>x\<bar> < 2 ^ 1023" using ku ax by simp
  have i: "ilog2 \<bar>x\<bar> = k" unfolding ax using x kl ku by (rule ilog2_unique)
  have r: "round_half_even (x / 2 powi (k - 52)) = m" using m by (rule round_half_even_unique)
  show ?thesis using round_double_normal_form(1)[OF lo hi] by (simp only: i r)
qed

lemma round_double_11_2: "round_double (11 / 2) = Finite (11 / 2)"
proof -
  have "round_double (11 / 2) = Finite (of_int 6192449487634432 * 2 powi (2 - 52))"
    by (rule round_double_eqI) simp_all
  then show ?thesis by simp
qed

lemma round_double_300: "round_double 300 = Finite 300"
proof -
  have "round_double 300 = Finite (of_int 5277655813324800 * 2 powi (8 - 52))"
    by (rule round_double_eqI) simp_all
  then show ?thesis by simp
qed

lemma round_double_11_600:
  "round_double (11 / 600) = Finite (2642111781390691 / 144115188075855872)"
proof -
  have "round_double (11 / 600) = Finite (of_int 5284223562781382 * 2 powi (- 6 - 52))"
    by (rule round_double_eqI) simp_all
  then show ?thesis by simp
qed

lemma round_double_1: "round_double 1 = Finite 1"
proof -
  have "round_double 1 = Finite (of_int 4503599627370496 * 2 powi (0 - 52))"
    by (rule round_double_eqI) simp_all
  then show ?thesis by simp
qed

lemma round_double_2: "round_double 2 = Finite 2"
proof -
  have "round_double 2 = Finite (of_int 4503599627370496 * 2 powi (1 - 52))"
    by (rule round_double_eqI) simp_all
  then show ?thesis by simp
qed

lemma round_double_5: "round_double 5 = Finite 5"
proof -
  have "round_double 5 = Finite (of_int 5629499534213120 * 2 powi (2 - 52))"
    by (rule round_double_eqI) simp_all
  then show ?thesis by simp
qed

lemma round_double_55_2: "round_double (55 / 2) = Finite (55 / 2)"
proof -
  have "round_double (55 / 2) = Finite (of_int 7740561859543040 * 2 powi (4 - 52))"
    by (rule round_double_eqI) simp_all
  then show ?thesis by simp
qed

lemma round_double_11_120:
  "round_double (11 / 120) = Finite (6605279453476727 / 72057594037927936)"
proof -
  have "round_double (11 / 120) = Finite (of_int 6605279453476727 * 2 powi (- 4 - 52))"
    by (rule round_double_eqI) simp_all
  then show ?thesis by simp
qed

lemma nominal_size_value: "nominal_size = Finite (11 / 2)"
proof -
  have "(5.5::rat) = 11 / 2" by simp
  then show ?thesis by (simp only: nominal_size_def round_double_11_2)
qed

lemma float_of_int_small:
  "float_of_int 1 = Inr (Finite 1)" "float_of_int 2 = Inr (Finite 2)"
  "float_of_int 5 = Inr (Finite 5)" "float_of_int 300 = Inr (Finite 300)"
  by (simp_all add: float_of_int_def round_double_1 round_double_2 round_double_5
      round_double_300)

text \<open>
  The error of a value that is rounded after a scaling of an already rounded value, and
  the value of \<^verbatim>\<open>nominal_size * n / dpi\<close> after its three roundings.
\<close>

lemma rel_step:
  fixes a b c d u X :: rat
  assumes X: "0 \<le> X" and a: "\<bar>a - X\<bar> \<le> X * d" and c: "0 \<le> c" and u: "0 \<le> u"
    and b: "\<bar>b - c * a\<bar> \<le> (c * a) * u"
  shows "\<bar>b - c * X\<bar> \<le> (c * X) * (d + u + d * u)"
proof -
  have au: "a \<le> X + X * d" using a by (simp add: abs_le_iff)
  have "c * a \<le> c * (X + X * d)" using au c by (rule mult_left_mono)
  then have 1: "(c * a) * u \<le> (c * (X + X * d)) * u" using u by (rule mult_right_mono)
  have 2: "c * \<bar>a - X\<bar> \<le> c * (X * d)" using a c by (rule mult_left_mono)
  have "b - c * X = (b - c * a) + c * (a - X)" by (simp add: algebra_simps)
  then have "\<bar>b - c * X\<bar> \<le> \<bar>b - c * a\<bar> + \<bar>c * (a - X)\<bar>" by (simp only: abs_triangle_ineq)
  also have "\<bar>c * (a - X)\<bar> = c * \<bar>a - X\<bar>" using c by (simp add: abs_mult)
  finally have "\<bar>b - c * X\<bar> \<le> (c * (X + X * d)) * u + c * (X * d)"
    using b 1 2 by linarith
  also have "\<dots> = (c * X) * (d + u + d * u)" by (simp add: algebra_simps)
  finally show ?thesis .
qed

lemma tiny_le: "(2::rat) powi (- 1022) \<le> 1 / 1024"
proof -
  have "(2::rat) powi (- 1022) \<le> 2 powi (- 10)"
    by (rule power_int_increasing) simp_all
  then show ?thesis by simp
qed

lemma figsize_value_pos:
  assumes n0: "0 < n" and n1: "n < 2 ^ 1000"
  obtains sw a where "float_times_int nominal_size n = Inr (Finite sw)"
    and "float_over_int (Finite sw) dpi = Inr (Finite a)"
    and "\<bar>a - 11 * of_int n / 600\<bar> \<le> (11 * of_int n / 600) / 2 ^ 51"
proof -
  define N :: rat where "N = of_int n"
  define u :: rat where "u = 1 / 2 ^ 53"
  have u0: "0 \<le> u" and u1: "u \<le> 1 / 2" by (simp_all add: u_def)
  have N1: "1 \<le> N" using n0 by (simp add: N_def)
  have Nu: "N < 2 ^ 1000"
    using n1 unfolding N_def by (metis of_int_less_iff of_int_numeral of_int_power)
  \<comment> \<open>the int becomes a float\<close>
  have "2 powi (- 1022) \<le> \<bar>N\<bar>" using tiny_le N1 by linarith
  moreover have "\<bar>N\<bar> < 2 ^ 1023"
  proof -
    have "(2::rat) ^ 1000 \<le> 2 ^ 1023" by (rule power_increasing) simp_all
    then show ?thesis using Nu N1 by linarith
  qed
  ultimately obtain r0 where r0: "round_double N = Finite r0" and e0: "\<bar>r0 - N\<bar> \<le> \<bar>N\<bar> / 2 ^ 53"
    by (rule round_double_normal)
  have e0': "\<bar>r0 - N\<bar> \<le> N * u" using e0 N1 by (simp add: u_def)
  have r0l: "N / 2 \<le> r0"
  proof -
    have "N * u \<le> N * (1 / 2)" using u1 N1 by (intro mult_left_mono) simp_all
    then show ?thesis using e0'[unfolded abs_le_iff] by linarith
  qed
  have r0u: "r0 \<le> 2 * N"
  proof -
    have "N * u \<le> N * 1" using u1 N1 by (intro mult_left_mono) simp_all
    then show ?thesis using e0'[unfolded abs_le_iff] N1 by linarith
  qed
  have f0: "float_of_int n = Inr (Finite r0)"
    by (simp add: float_of_int_def r0[unfolded N_def])
  \<comment> \<open>the product\<close>
  define x1 where "x1 = 11 / 2 * r0"
  have x1l: "1 \<le> x1" using r0l N1 by (simp add: x1_def)
  have x1u: "x1 \<le> 11 * N" using r0u by (simp add: x1_def)
  have x1n: "\<bar>x1\<bar> < 2 ^ 1023"
  proof -
    have "11 * N < 2 ^ 4 * 2 ^ 1000" using Nu N1 by simp
    also have "\<dots> = (2::rat) ^ 1004" by (simp flip: power_add)
    also have "\<dots> \<le> 2 ^ 1023" by (rule power_increasing) simp_all
    finally show ?thesis using x1u x1l by linarith
  qed
  have "2 powi (- 1022) \<le> \<bar>x1\<bar>" using tiny_le x1l by linarith
  then obtain r1 where r1: "round_double x1 = Finite r1" and e1: "\<bar>r1 - x1\<bar> \<le> \<bar>x1\<bar> / 2 ^ 53"
    using x1n by (rule round_double_normal)
  have e1x: "\<bar>r1 - x1\<bar> \<le> x1 * u" using e1 x1l by (simp add: u_def)
  have e1': "\<bar>r1 - 11 / 2 * r0\<bar> \<le> (11 / 2 * r0) * u"
    using e1x by (simp add: x1_def)
  have r1l: "1 / 2 \<le> r1"
  proof -
    have "x1 * u \<le> x1 * (1 / 2)" using u1 x1l by (intro mult_left_mono) simp_all
    then show ?thesis using e1x[unfolded abs_le_iff] x1l by linarith
  qed
  have r1u: "r1 \<le> 2 * x1"
  proof -
    have "x1 * u \<le> x1 * 1" using u1 x1l by (intro mult_left_mono) simp_all
    then show ?thesis using e1x[unfolded abs_le_iff] x1l by linarith
  qed
  have f1: "float_times_int nominal_size n = Inr (Finite r1)"
    using r1 by (simp add: float_times_int_def nominal_size_value f0 x1_def)
  \<comment> \<open>the quotient\<close>
  define x2 where "x2 = r1 / 300"
  have x2l: "1 / 600 \<le> x2" using r1l by (simp add: x2_def)
  have x2u: "x2 \<le> x1" using r1u x1l by (simp add: x2_def)
  have "2 powi (- 1022) \<le> \<bar>x2\<bar>" using tiny_le x2l by linarith
  moreover have "\<bar>x2\<bar> < 2 ^ 1023"
    using x2u x2l x1n by linarith
  ultimately obtain r2 where r2: "round_double x2 = Finite r2" and e2: "\<bar>r2 - x2\<bar> \<le> \<bar>x2\<bar> / 2 ^ 53"
    by (rule round_double_normal)
  have e2x: "\<bar>r2 - x2\<bar> \<le> x2 * u" using e2 x2l by (simp add: u_def)
  have e2': "\<bar>r2 - 1 / 300 * r1\<bar> \<le> (1 / 300 * r1) * u"
    using e2x by (simp add: x2_def)
  have f2: "float_over_int (Finite r1) dpi = Inr (Finite r2)"
    using r2 by (simp add: float_over_int_def dpi_def float_of_int_small x2_def)
  \<comment> \<open>three roundings\<close>
  have s1: "\<bar>r1 - 11 / 2 * N\<bar> \<le> (11 / 2 * N) * (u + u + u * u)"
    using N1 u0 by (intro rel_step[OF _ e0' _ _ e1']) simp_all
  have s2: "\<bar>r2 - 1 / 300 * (11 / 2 * N)\<bar>
      \<le> (1 / 300 * (11 / 2 * N)) * ((u + u + u * u) + u + (u + u + u * u) * u)"
    using N1 u0 by (intro rel_step[OF _ s1 _ _ e2']) simp_all
  have num: "(u + u + u * u) + u + (u + u + u * u) * u \<le> 1 / 2 ^ 51"
    unfolding u_def by simp
  have "(1 / 300 * (11 / 2 * N)) * ((u + u + u * u) + u + (u + u + u * u) * u)
      \<le> (1 / 300 * (11 / 2 * N)) * (1 / 2 ^ 51)"
    using num N1 by (intro mult_left_mono) simp_all
  with s2 have "\<bar>r2 - 11 * N / 600\<bar> \<le> (11 * N / 600) / 2 ^ 51" by simp
  with f1 f2 show ?thesis using that by (simp add: N_def)
qed

lemma figsize_value:
  assumes n0: "0 \<le> n" and n1: "n < 2 ^ 1000"
  obtains sw a where "float_times_int nominal_size n = Inr (Finite sw)"
    and "float_over_int (Finite sw) dpi = Inr (Finite a)"
    and "\<bar>a - 11 * of_int n / 600\<bar> \<le> (11 * of_int n / 600) / 2 ^ 51"
proof (cases "n = 0")
  case True
  have z: "round_double 0 = Finite 0" by (simp add: round_double_def)
  have 1: "float_times_int nominal_size n = Inr (Finite 0)"
    by (simp add: True float_times_int_def float_of_int_def nominal_size_value z)
  have 2: "float_over_int (Finite 0) dpi = Inr (Finite 0)"
    by (simp add: float_over_int_def dpi_def float_of_int_small z)
  show ?thesis using that[OF 1 2] by (simp add: True)
next
  case False
  then have "0 < n" using n0 by simp
  then show ?thesis using figsize_value_pos[OF _ n1] that by blast
qed

lemma tile_figure_value:
  assumes d: "dimensions t = (width, height)"
    and w: "0 \<le> width" "width < 2 ^ 1000" and h: "0 \<le> height" "height < 2 ^ 1000"
  obtains fig a b where "tile_figure t g = Inr fig" and "figsize fig = (Finite a, Finite b)"
    and "\<bar>a - 11 * of_int width / 600\<bar> \<le> (11 * of_int width / 600) / 2 ^ 51"
    and "\<bar>b - 11 * of_int height / 600\<bar> \<le> (11 * of_int height / 600) / 2 ^ 51"
proof -
  obtain sw a where a: "float_times_int nominal_size width = Inr (Finite sw)"
      "float_over_int (Finite sw) dpi = Inr (Finite a)"
      "\<bar>a - 11 * of_int width / 600\<bar> \<le> (11 * of_int width / 600) / 2 ^ 51"
    using figsize_value[OF w] by blast
  obtain sh b where b: "float_times_int nominal_size height = Inr (Finite sh)"
      "float_over_int (Finite sh) dpi = Inr (Finite b)"
      "\<bar>b - 11 * of_int height / 600\<bar> \<le> (11 * of_int height / 600) / 2 ^ 51"
    using figsize_value[OF h] by blast
  have "tile_figure t g =
      Inr \<lparr>figsize = (Finite a, Finite b), image = g, aspect = ''equal'', xticks = [],
           yticks = [],
           title = ''['' @ str_int width @ '', '' @ str_int height @ '']'' @ '', ''
                     @ cell_type t @ '')''\<rparr>"
    by (simp add: tile_figure_def d a(1,2) b(1,2))
  then show ?thesis using that a(3) b(3) by simp
qed

lemma tile_to_png_demo_tile: "tile_to_png demo_env demo_tile = Inr (Some png_signature)"
proof -
  have c: "cells demo_tile = Some [[1, 2], [3, 4]]" and d: "dimensions demo_tile = (2, 2)"
    by (simp_all add: demo_tile_def)
  obtain fig where "tile_figure demo_tile [[1, 2], [3, 4]] = Inr fig"
    using tile_figure_value[OF d, of "[[1, 2], [3, 4]]"] by auto
  then show ?thesis by (simp add: tile_to_png_def c demo_env_def)
qed

section \<open>The PNG renderer and the HTML image wrapper\<close>

text \<open>
  Claim C2. For every tile whose cell grid is absent (\<^verbatim>\<open>tile.cells is None\<close>),
  \<^verbatim>\<open>tile_to_png\<close> returns \<^verbatim>\<open>None\<close>: a normal return carrying no image bytes, not an
  exception. This holds whatever the drawing backend does, since it is never called.
\<close>

theorem tile_to_png_absent_cells:
  assumes "cells t = None"
  shows "tile_to_png env t = Inr None"
  using assms by (simp add: tile_to_png_def)

theorem tile_to_png_absent_cells_witness:
  "cells blank_tile = None \<and> tile_to_png demo_env blank_tile = Inr None"
proof -
  have h: "cells blank_tile = None" by (simp add: blank_tile_def)
  show ?thesis using h tile_to_png_absent_cells[OF h, of demo_env] by simp
qed

text \<open>
  Claim C10. For every tile whose cell grid is absent, \<^verbatim>\<open>tile_to_png\<close> returns \<^verbatim>\<open>None\<close> and
  \<^verbatim>\<open>tile_to_html\<close> raises instead of returning a string: it passes the renderer's result
  to \<^verbatim>\<open>base64.b64encode\<close> without testing it, and encoding \<^verbatim>\<open>None\<close> is a \<^verbatim>\<open>TypeError\<close>.
\<close>

theorem tile_to_html_absent_cells:
  assumes "cells t = None"
  shows "tile_to_png env t = Inr None \<and> tile_to_html env t = Inl TypeError"
  using assms by (simp add: tile_to_html_def tile_to_png_def py_b64encode_def)

theorem tile_to_html_absent_cells_witness:
  "cells blank_tile = None \<and> tile_to_html demo_env blank_tile = Inl TypeError"
proof -
  have h: "cells blank_tile = None" by (simp add: blank_tile_def)
  show ?thesis using h tile_to_html_absent_cells[OF h, of demo_env] by simp
qed

text \<open>
  Claim C3. For every tile with a cell grid for which \<^verbatim>\<open>tile_to_png\<close> returns the bytes
  \<open>png\<close>, \<^verbatim>\<open>tile_to_html\<close> returns exactly the \<^verbatim>\<open>img\<close> template with the base64 text of
  \<open>png\<close> in the place of the data; that text contains no line break (neither a line feed
  nor a carriage return), and decoding it gives \<open>png\<close> back. A tile whose drawing fails
  in the backend is outside the claim: there \<^verbatim>\<open>tile_to_png\<close> returns no bytes at all.
\<close>

theorem tile_to_html_round_trip:
  assumes "cells t \<noteq> None" and "tile_to_png env t = Inr (Some png)"
  shows \<open>tile_to_html env t = Inr (''<img src="data:image/png;base64,'' @ b64encode png @ ''" />'')
         \<and> newline \<notin> set (b64encode png)
         \<and> CHR 0x0D \<notin> set (b64encode png)
         \<and> b64decode (b64encode png) = Some png\<close>
  using assms(2)
  by (simp add: tile_to_html_def py_b64encode_def replace_newline_b64encode b64_img_html_def
      b64encode_no_line_break b64decode_b64encode)

theorem tile_to_html_round_trip_witness:
  \<open>cells demo_tile \<noteq> None
   \<and> tile_to_png demo_env demo_tile = Inr (Some png_signature)
   \<and> tile_to_html demo_env demo_tile = Inr ''<img src="data:image/png;base64,iVBORw0KGgo=" />''
   \<and> b64decode ''iVBORw0KGgo='' = Some png_signature\<close>
proof -
  have h1: "cells demo_tile \<noteq> None" by (simp add: demo_tile_def)
  have h2: "tile_to_png demo_env demo_tile = Inr (Some png_signature)"
    by (rule tile_to_png_demo_tile)
  have e: "b64encode png_signature = ''iVBORw0KGgo=''"
    by (simp add: png_signature_def b64_char_def b64_alphabet_def b64_pad_def)
  show ?thesis
    using h1 h2 tile_to_html_round_trip[OF h1 h2] by (simp add: e)
qed

text \<open>
  Claim C9, as amended. For every tile with a cell grid and dimensions from \<open>0\<close> up to
  (excluding) \<open>2 ^ 1000\<close>, the figure that \<^verbatim>\<open>tile_to_png\<close> has drawn has the size
  \<^verbatim>\<open>(nominal_size * width / dpi, nominal_size * height / dpi)\<close> as double arithmetic
  computes it from the tile's \<^verbatim>\<open>dimensions()\<close> with the constants \<open>5.5\<close> and \<open>300\<close>: two finite
  doubles, each within the relative error \<open>2 ^ -51\<close> of the exact \<open>5.5 * dim / 300\<close>. The
  sizes of the figures of two tiles are therefore in the ratio of their pixel dimensions up
  to the relative error \<open>2 ^ -50\<close>. The claim as stated fails, because the doubles are
  rounded: the size for the width \<open>1\<close> is not \<open>5.5 / 300\<close>, and the size for the width \<open>5\<close>
  is not five times the size for the width \<open>1\<close>.
\<close>

theorem figsize_rounding_counterexample:
  "dimensions unit_tile = (1, 1)
   \<and> dimensions five_tile = (5, 1)
   \<and> map_sum id figsize (tile_figure unit_tile [[7]]) =
       Inr (Finite (2642111781390691 / 144115188075855872),
            Finite (2642111781390691 / 144115188075855872))
   \<and> map_sum id figsize (tile_figure five_tile [[1, 2, 3, 4, 5]]) =
       Inr (Finite (6605279453476727 / 72057594037927936),
            Finite (2642111781390691 / 144115188075855872))
   \<and> (2642111781390691 / 144115188075855872 :: rat) \<noteq> 5.5 * 1 / 300
   \<and> (6605279453476727 / 72057594037927936 :: rat)
       \<noteq> 5 * (2642111781390691 / 144115188075855872)"
proof -
  have one: "float_times_int nominal_size 1 = Inr (Finite (11 / 2))"
    by (simp add: float_times_int_def nominal_size_value float_of_int_small round_double_11_2)
  have five: "float_times_int nominal_size 5 = Inr (Finite (55 / 2))"
    by (simp add: float_times_int_def nominal_size_value float_of_int_small round_double_55_2)
  have q1: "float_over_int (Finite (11 / 2)) dpi =
      Inr (Finite (2642111781390691 / 144115188075855872))"
    by (simp add: float_over_int_def dpi_def float_of_int_small round_double_11_600)
  have q5: "float_over_int (Finite (55 / 2)) dpi =
      Inr (Finite (6605279453476727 / 72057594037927936))"
    by (simp add: float_over_int_def dpi_def float_of_int_small round_double_11_120)
  show ?thesis
    by (simp add: tile_figure_def unit_tile_def five_tile_def one five q1 q5)
qed

theorem tile_to_png_figsize:
  assumes "cells t = Some g" and "dimensions t = (width, height)"
    and "0 \<le> width" and "width < 2 ^ 1000" and "0 \<le> height" and "height < 2 ^ 1000"
    and "dimensions t' = (width', height')"
    and "0 \<le> width'" and "width' < 2 ^ 1000" and "0 \<le> height'" and "height' < 2 ^ 1000"
  shows "\<exists>fig a b fig' a' b'.
           tile_figure t g = Inr fig \<and> figsize fig = (Finite a, Finite b)
         \<and> tile_to_png env t =
             (case print_png env fig of
                Inl e \<Rightarrow> Inl e
              | Inr output \<Rightarrow> Inr (Some output))
         \<and> \<bar>a - 5.5 * of_int width / 300\<bar> \<le> (5.5 * of_int width / 300) / 2 ^ 51
         \<and> \<bar>b - 5.5 * of_int height / 300\<bar> \<le> (5.5 * of_int height / 300) / 2 ^ 51
         \<and> tile_figure t' g' = Inr fig' \<and> figsize fig' = (Finite a', Finite b')
         \<and> \<bar>a * of_int width' - a' * of_int width\<bar>
             \<le> (5.5 * of_int width * of_int width' / 300) / 2 ^ 50
         \<and> \<bar>b * of_int height' - b' * of_int height\<bar>
             \<le> (5.5 * of_int height * of_int height' / 300) / 2 ^ 50"
proof -
  obtain fig a b where fig: "tile_figure t g = Inr fig" "figsize fig = (Finite a, Finite b)"
    and a: "\<bar>a - 11 * of_int width / 600\<bar> \<le> (11 * of_int width / 600) / 2 ^ 51"
    and b: "\<bar>b - 11 * of_int height / 600\<bar> \<le> (11 * of_int height / 600) / 2 ^ 51"
    using tile_figure_value[OF assms(2-6), of g] by blast
  obtain fig' a' b' where fig': "tile_figure t' g' = Inr fig'"
      "figsize fig' = (Finite a', Finite b')"
    and a': "\<bar>a' - 11 * of_int width' / 600\<bar> \<le> (11 * of_int width' / 600) / 2 ^ 51"
    and b': "\<bar>b' - 11 * of_int height' / 600\<bar> \<le> (11 * of_int height' / 600) / 2 ^ 51"
    using tile_figure_value[OF assms(7-11), of g'] by blast
  have png: "tile_to_png env t =
      (case print_png env fig of Inl e \<Rightarrow> Inl e | Inr output \<Rightarrow> Inr (Some output))"
    by (simp add: tile_to_png_def assms(1) fig(1))
  have ratio: "\<bar>x * of_int n' - x' * of_int n\<bar> \<le> (11 * of_int n * of_int n' / 600) / 2 ^ 50"
    if x: "\<bar>x - 11 * of_int n / 600\<bar> \<le> (11 * of_int n / 600) / 2 ^ 51"
      and x': "\<bar>x' - 11 * of_int n' / 600\<bar> \<le> (11 * of_int n' / 600) / 2 ^ 51"
      and n: "0 \<le> n" and n': "0 \<le> n'"
    for x x' :: rat and n n' :: int
  proof -
    define N :: rat where "N = of_int n"
    define N' :: rat where "N' = of_int n'"
    have N: "0 \<le> N" and N': "0 \<le> N'" using n n' by (simp_all add: N_def N'_def)
    have 1: "\<bar>x - 11 * N / 600\<bar> * N' \<le> (11 * N / 600) / 2 ^ 51 * N'"
      using x N' unfolding N_def by (rule mult_right_mono)
    have 2: "\<bar>x' - 11 * N' / 600\<bar> * N \<le> (11 * N' / 600) / 2 ^ 51 * N"
      using x' N unfolding N'_def by (rule mult_right_mono)
    have "x * N' - x' * N = (x - 11 * N / 600) * N' - (x' - 11 * N' / 600) * N"
      by (simp add: algebra_simps)
    then have "\<bar>x * N' - x' * N\<bar>
        \<le> \<bar>(x - 11 * N / 600) * N'\<bar> + \<bar>(x' - 11 * N' / 600) * N\<bar>"
      by (simp only: abs_triangle_ineq4)
    also have "\<dots> = \<bar>x - 11 * N / 600\<bar> * N' + \<bar>x' - 11 * N' / 600\<bar> * N"
      using N N' by (simp add: abs_mult)
    also have "\<dots> \<le> (11 * N / 600) / 2 ^ 51 * N' + (11 * N' / 600) / 2 ^ 51 * N"
      using 1 2 by linarith
    also have "\<dots> = (11 * N * N' / 600) / 2 ^ 50" by simp
    finally show ?thesis by (simp only: N_def N'_def)
  qed
  have rw: "\<bar>a * of_int width' - a' * of_int width\<bar>
      \<le> (11 * of_int width * of_int width' / 600) / 2 ^ 50"
    using a a' assms(3) assms(8) by (rule ratio)
  have rh: "\<bar>b * of_int height' - b' * of_int height\<bar>
      \<le> (11 * of_int height * of_int height' / 600) / 2 ^ 50"
    using b b' assms(5) assms(10) by (rule ratio)
  have c: "(5.5::rat) * x / 300 = 11 * x / 600" for x by simp
  have c2: "(5.5::rat) * x * y / 300 = 11 * x * y / 600" for x y by simp
  show ?thesis
    using fig fig' png a b rw rh unfolding c c2 by blast
qed

theorem tile_to_png_figsize_witness:
  "cells demo_tile = Some [[1, 2], [3, 4]]
   \<and> dimensions demo_tile = (2, 2) \<and> dimensions five_tile = (5, 1)
   \<and> (0::int) \<le> 2 \<and> (2::int) < 2 ^ 1000 \<and> (0::int) \<le> 5 \<and> (5::int) < 2 ^ 1000
   \<and> (0::int) \<le> 1 \<and> (1::int) < 2 ^ 1000
   \<and> (\<exists>fig a b fig' a' b'.
         tile_figure demo_tile [[1, 2], [3, 4]] = Inr fig \<and> figsize fig = (Finite a, Finite b)
       \<and> tile_to_png demo_env demo_tile = Inr (Some png_signature)
       \<and> \<bar>a - 11 / 300\<bar> \<le> (11 / 300) / 2 ^ 51
       \<and> tile_figure five_tile [[1, 2, 3, 4, 5]] = Inr fig'
       \<and> figsize fig' = (Finite a', Finite b')
       \<and> \<bar>a * 5 - a' * 2\<bar> \<le> (11 / 60) / 2 ^ 50)"
proof -
  have h1: "cells demo_tile = Some [[1, 2], [3, 4]]" by (simp add: demo_tile_def)
  have h2: "dimensions demo_tile = (2, 2)" by (simp add: demo_tile_def)
  have h3: "dimensions five_tile = (5, 1)" by (simp add: five_tile_def)
  have r: "(0::int) \<le> 2" "(2::int) < 2 ^ 1000" "(0::int) \<le> 5" "(5::int) < 2 ^ 1000"
    "(0::int) \<le> 1" "(1::int) < 2 ^ 1000" by simp_all
  obtain fig a b fig' a' b' where f:
    "tile_figure demo_tile [[1, 2], [3, 4]] = Inr fig" "figsize fig = (Finite a, Finite b)"
    "tile_to_png demo_env demo_tile =
       (case print_png demo_env fig of Inl e \<Rightarrow> Inl e | Inr output \<Rightarrow> Inr (Some output))"
    "\<bar>a - 5.5 * of_int 2 / 300\<bar> \<le> (5.5 * of_int 2 / 300) / 2 ^ 51"
    "tile_figure five_tile [[1, 2, 3, 4, 5]] = Inr fig'" "figsize fig' = (Finite a', Finite b')"
    "\<bar>a * of_int 5 - a' * of_int 2\<bar> \<le> (5.5 * of_int 2 * of_int 5 / 300) / 2 ^ 50"
    using tile_to_png_figsize[OF h1 h2 r(1) r(2) r(1) r(2) h3 r(3) r(4) r(5) r(6),
        of demo_env "[[1, 2, 3, 4, 5]]"]
    by blast
  have png: "tile_to_png demo_env demo_tile = Inr (Some png_signature)"
    using f(3) by (simp add: demo_env_def)
  have e1: "\<bar>a - 11 / 300\<bar> \<le> (11 / 300) / 2 ^ 51" using f(4) by simp
  have e2: "\<bar>a * 5 - a' * 2\<bar> \<le> (11 / 60) / 2 ^ 50" using f(7) by simp
  show ?thesis
    using h1 h2 h3 r f(1,2,5,6) png e1 e2 by blast
qed

section \<open>The table formatter\<close>

text \<open>
  The formatter dictionary holds \<^verbatim>\<open>_safe_tile_to_html\<close> under the tile columns and nothing
  else; when the HTML representation is enabled and the table has a row, the function is
  one call of \<^verbatim>\<open>to_html\<close> under the widened option, and the option is put back when that
  call returns.
\<close>

lemma formatters_to_html_kwargs:
  "formatters (to_html_kwargs env opts tcols) c =
     (if c \<in> set tcols then Some (safe_tile_to_html env) else None)"
  by (induction tcols) (simp_all add: to_html_kwargs_def)

lemma set_tile_cols:
  "c \<in> set (tile_cols cols row0) \<longleftrightarrow>
     c \<in> set cols \<and> item_isinstance_Tile (series_getitem cols row0 c)"
  by (simp add: tile_cols_def)

lemma set_option_restore:
  "set_option (set_option opts k v) k (get_option opts k) = opts"
  by (simp add: set_option_def get_option_def)

lemma get_option_other:
  "k' \<noteq> k \<Longrightarrow> get_option (set_option opts k v) k' = get_option opts k'"
  by (simp add: set_option_def get_option_def)

lemma pandas_df_to_html_render:
  assumes "truthy (get_option opts ''display.notebook_repr_html'')"
    and "rows df = row0 # later"
  shows "pandas_df_to_html env opts df =
     (case to_html env (set_option opts ''display.max_colwidth'' (Opt_int (- 1))) df
             (to_html_kwargs env (set_option opts ''display.max_colwidth'' (Opt_int (- 1)))
                (tile_cols (columns df) row0)) of
        Inl e \<Rightarrow> (Inl e, set_option opts ''display.max_colwidth'' (Opt_int (- 1)))
      | Inr return_html \<Rightarrow> (Inr (Some return_html), opts))"
  using assms
  by (simp add: pandas_df_to_html_def Let_def set_option_restore split: sum.splits)

lemma pandas_df_to_html_frame:
  "set_option (snd (pandas_df_to_html env opts df)) ''display.max_colwidth''
     (get_option opts ''display.max_colwidth'') = opts"
proof -
  have triv: "set_option opts ''display.max_colwidth'' (get_option opts ''display.max_colwidth'') = opts"
    by (simp add: set_option_def get_option_def)
  show ?thesis
    by (simp add: pandas_df_to_html_def Let_def set_option_restore triv
        split: sum.splits list.splits)
qed

lemma pandas_df_to_html_restores_on_return:
  assumes "fst (pandas_df_to_html env opts df) = Inr r"
  shows "snd (pandas_df_to_html env opts df) = opts"
  using assms
  by (simp add: pandas_df_to_html_def Let_def set_option_restore
      split: if_splits list.splits sum.splits)

lemma pandas_df_to_html_keeps_widened_on_error:
  assumes "truthy (get_option opts ''display.notebook_repr_html'')"
    and "rows df = row0 # later"
    and "to_html env (set_option opts ''display.max_colwidth'' (Opt_int (- 1))) df
           (to_html_kwargs env (set_option opts ''display.max_colwidth'' (Opt_int (- 1)))
              (tile_cols (columns df) row0)) = Inl e"
  shows "pandas_df_to_html env opts df =
           (Inl e, set_option opts ''display.max_colwidth'' (Opt_int (- 1)))"
  using pandas_df_to_html_render[OF assms(1,2), of env] assms(3) by simp

text \<open>
  Claim C6. When the option \<^verbatim>\<open>display.notebook_repr_html\<close> is disabled (falsy),
  \<^verbatim>\<open>pandas_df_to_html\<close> returns \<^verbatim>\<open>None\<close> for every table and every environment, and leaves
  the option registry exactly as it was; no renderer has any influence on the outcome.
\<close>

theorem pandas_df_to_html_repr_disabled:
  assumes "\<not> truthy (get_option opts ''display.notebook_repr_html'')"
  shows "pandas_df_to_html env opts df = (Inr None, opts)"
  using assms by (simp add: pandas_df_to_html_def)

theorem pandas_df_to_html_repr_disabled_witness:
  "\<not> truthy (get_option (demo_options(''display.notebook_repr_html'' := Opt_bool False))
        ''display.notebook_repr_html'')
   \<and> fst (pandas_df_to_html demo_env
         (demo_options(''display.notebook_repr_html'' := Opt_bool False)) demo_df) = Inr None
   \<and> snd (pandas_df_to_html demo_env
         (demo_options(''display.notebook_repr_html'' := Opt_bool False)) demo_df)
         ''display.max_colwidth'' = Opt_int 50"
proof -
  have h: "\<not> truthy (get_option (demo_options(''display.notebook_repr_html'' := Opt_bool False))
        ''display.notebook_repr_html'')"
    by (simp add: get_option_def truthy_def)
  show ?thesis
    using h pandas_df_to_html_repr_disabled[OF h, of demo_env demo_df]
    by (simp add: demo_options_def)
qed

text \<open>
  Claim C5. When the HTML representation is enabled and the table has no rows,
  \<^verbatim>\<open>pandas_df_to_html\<close> returns whatever the table's own \<^verbatim>\<open>_repr_html_()\<close> returns (or
  raises) under the unchanged options, and leaves the option registry as it was; neither
  \<^verbatim>\<open>to_html\<close> nor any tile rendering takes part.
\<close>

theorem pandas_df_to_html_zero_rows:
  assumes "truthy (get_option opts ''display.notebook_repr_html'')"
    and "length (rows df) = 0"
  shows "pandas_df_to_html env opts df = (repr_html env opts df, opts)"
  using assms by (simp add: pandas_df_to_html_def)

theorem pandas_df_to_html_zero_rows_witness:
  "truthy (get_option demo_options ''display.notebook_repr_html'')
   \<and> length (rows empty_df) = 0
   \<and> fst (pandas_df_to_html demo_env demo_options empty_df) = Inr (Some ''<div></div>'')
   \<and> snd (pandas_df_to_html demo_env demo_options empty_df) ''display.max_colwidth'' = Opt_int 50"
proof -
  have h1: "truthy (get_option demo_options ''display.notebook_repr_html'')"
    by (simp add: get_option_def truthy_def demo_options_def)
  have h2: "length (rows empty_df) = 0" by (simp add: empty_df_def)
  show ?thesis
    using h1 h2 pandas_df_to_html_zero_rows[OF h1 h2, of demo_env]
    by (simp add: demo_env_def demo_options_def)
qed

text \<open>
  Selection by label from the first row: the cells selected are as many as the columns
  carrying the label, and a label carried by one column selects that column's cell.
\<close>

lemma selected_absent:
  "c \<notin> set labels \<Longrightarrow> filter (\<lambda>(l, v). l = c) (zip labels vals) = []"
  by (auto simp: filter_empty_conv dest: set_zip_leftD)

lemma selected_length:
  "length vals = length labels \<Longrightarrow>
     length (filter (\<lambda>(l, v). l = c) (zip labels vals)) = count_list labels c"
  by (induction labels vals rule: list_induct2') simp_all

lemma selected_unique:
  "length vals = length labels \<Longrightarrow> i < length labels \<Longrightarrow>
     count_list labels (labels ! i) = 1 \<Longrightarrow>
     map snd (filter (\<lambda>(l, v). l = labels ! i) (zip labels vals)) = [vals ! i]"
proof (induction labels vals arbitrary: i rule: list_induct2')
  case (4 l ls v vs)
  show ?case
  proof (cases i)
    case 0
    with 4 have "count_list ls l = 0" by simp
    then have "l \<notin> set ls" by (simp add: count_list_0_iff)
    then show ?thesis using 0 by (simp add: selected_absent)
  next
    case (Suc j)
    with 4 have j: "j < length ls" by simp
    then have "ls ! j \<in> set ls" by simp
    then have pos: "0 < count_list ls (ls ! j)"
      using count_list_0_iff[of ls "ls ! j"] by simp
    have "count_list (l # ls) (ls ! j) = 1" using 4 Suc by simp
    with pos have ne: "l \<noteq> ls ! j" and one: "count_list ls (ls ! j) = 1"
      by (auto split: if_splits)
    have "length vs = length ls" using 4 by simp
    from "4.IH"[OF this j one] show ?thesis using Suc ne by simp
  qed
qed simp_all

lemma series_getitem_unique:
  assumes "length vals = length labels" and "i < length labels"
    and "count_list labels (labels ! i) = 1"
  shows "series_getitem labels vals (labels ! i) = Cell (vals ! i)"
  by (simp add: series_getitem_def selected_unique[OF assms])

lemma series_getitem_repeated:
  assumes "length vals = length labels" and "1 < count_list labels c"
  shows "\<not> item_isinstance_Tile (series_getitem labels vals c)"
proof -
  have "length (map snd (filter (\<lambda>(l, v). l = c) (zip labels vals))) = count_list labels c"
    using selected_length[OF assms(1), of c] by simp
  with assms(2) have "1 < length (map snd (filter (\<lambda>(l, v). l = c) (zip labels vals)))"
    by simp
  then show ?thesis
    by (cases "map snd (filter (\<lambda>(l, v). l = c) (zip labels vals))" rule: remdups_adj.cases)
       (simp_all add: series_getitem_def item_isinstance_Tile_def)
qed

text \<open>
  Claim C4, as amended. When the HTML representation is enabled and the table has a first
  row \<open>row0\<close> followed by any rows \<open>later\<close>, a column whose label is carried by no other
  column is given a formatter in the call of \<^verbatim>\<open>to_html\<close> exactly when its cell in \<open>row0\<close>
  is a \<^verbatim>\<open>Tile\<close>. The rows \<open>later\<close> do not occur in the classification, so no value in them
  changes it. The claim as stated, for every table, fails where two columns share a
  label: \<^verbatim>\<open>df.iloc[0][c]\<close> is then a \<^verbatim>\<open>Series\<close>, and neither column is classified although
  the first-row cell of each is a \<^verbatim>\<open>Tile\<close>.
\<close>

theorem tile_cols_duplicate_label_counterexample:
  "truthy (get_option demo_options ''display.notebook_repr_html'')
   \<and> columns twin_df = [''tile'', ''tile'']
   \<and> rows twin_df = [[Tile_val demo_tile, Tile_val demo_tile]]
   \<and> isinstance_Tile ([Tile_val demo_tile, Tile_val demo_tile] ! 0)
   \<and> isinstance_Tile ([Tile_val demo_tile, Tile_val demo_tile] ! 1)
   \<and> tile_cols (columns twin_df) [Tile_val demo_tile, Tile_val demo_tile] = []
   \<and> fst (pandas_df_to_html demo_env demo_options twin_df) = Inr (Some ''<td>Tile</td><td>Tile</td>'')"
  by (simp add: pandas_df_to_html_def demo_env_def demo_options_def twin_df_def get_option_def
      set_option_def truthy_def tile_cols_def isinstance_Tile_def item_isinstance_Tile_def
      series_getitem_def to_html_kwargs_def cells_to_html_def cell_html_def)

theorem tile_cols_unique_label:
  assumes "truthy (get_option opts ''display.notebook_repr_html'')"
    and "rows df = row0 # later"
    and "length row0 = length (columns df)"
    and "i < length (columns df)"
    and "count_list (columns df) (columns df ! i) = 1"
  shows "pandas_df_to_html env opts df =
           (case to_html env (set_option opts ''display.max_colwidth'' (Opt_int (- 1))) df
                   (to_html_kwargs env (set_option opts ''display.max_colwidth'' (Opt_int (- 1)))
                      (tile_cols (columns df) row0)) of
              Inl e \<Rightarrow> (Inl e, set_option opts ''display.max_colwidth'' (Opt_int (- 1)))
            | Inr return_html \<Rightarrow> (Inr (Some return_html), opts))
         \<and> (columns df ! i \<in> set (tile_cols (columns df) row0)
              \<longleftrightarrow> isinstance_Tile (row0 ! i))
         \<and> (formatters (to_html_kwargs env (set_option opts ''display.max_colwidth'' (Opt_int (- 1)))
                (tile_cols (columns df) row0)) (columns df ! i) \<noteq> None
              \<longleftrightarrow> isinstance_Tile (row0 ! i))"
  using pandas_df_to_html_render[OF assms(1,2), of env] assms(4)
  by (simp add: formatters_to_html_kwargs set_tile_cols series_getitem_unique[OF assms(3,4,5)]
      item_isinstance_Tile_def)

theorem tile_cols_unique_label_witness:
  "truthy (get_option demo_options ''display.notebook_repr_html'')
   \<and> rows demo_df = [demo_row (Tile_val demo_tile) ''1'', demo_row (Other_val ''nan'') ''2'']
   \<and> length (demo_row (Tile_val demo_tile) ''1'') = length (columns demo_df)
   \<and> columns demo_df = [''id'', ''tile'']
   \<and> count_list (columns demo_df) (columns demo_df ! 1) = 1
   \<and> count_list (columns demo_df) (columns demo_df ! 0) = 1
   \<and> ''tile'' \<in> set (tile_cols (columns demo_df) (demo_row (Tile_val demo_tile) ''1''))
   \<and> ''id'' \<notin> set (tile_cols (columns demo_df) (demo_row (Tile_val demo_tile) ''1''))"
proof -
  have h1: "truthy (get_option demo_options ''display.notebook_repr_html'')"
    by (simp add: get_option_def truthy_def demo_options_def)
  have h2: "rows demo_df = [demo_row (Tile_val demo_tile) ''1'', demo_row (Other_val ''nan'') ''2'']"
    by (simp add: demo_df_def)
  have h3: "length (demo_row (Tile_val demo_tile) ''1'') = length (columns demo_df)"
    by (simp add: demo_df_def demo_row_def)
  have c: "columns demo_df = [''id'', ''tile'']" by (simp add: demo_df_def)
  have i1: "1 < length (columns demo_df)" and i0: "0 < length (columns demo_df)"
    by (simp_all add: c)
  have u1: "count_list (columns demo_df) (columns demo_df ! 1) = 1"
    and u0: "count_list (columns demo_df) (columns demo_df ! 0) = 1"
    by (simp_all add: c)
  have "''tile'' \<in> set (tile_cols (columns demo_df) (demo_row (Tile_val demo_tile) ''1''))"
    using tile_cols_unique_label[OF h1 h2 h3 i1 u1, of demo_env]
    by (simp add: c demo_row_def isinstance_Tile_def)
  moreover have "''id'' \<notin> set (tile_cols (columns demo_df) (demo_row (Tile_val demo_tile) ''1''))"
    using tile_cols_unique_label[OF h1 h2 h3 i0 u0, of demo_env]
    by (simp add: c demo_row_def isinstance_Tile_def)
  ultimately show ?thesis using h1 h2 h3 c u1 u0 by blast
qed



text \<open>
  Claim C8. On the rendering path the table's own \<^verbatim>\<open>to_html\<close> is called with escaping
  off, link rendering and notebook mode on, and with the values of
  \<^verbatim>\<open>display.max_rows\<close>, \<^verbatim>\<open>display.max_columns\<close> and \<^verbatim>\<open>display.show_dimensions\<close> that the
  registry held before the call. The registry left behind differs from the one before
  the call at most in \<^verbatim>\<open>display.max_colwidth\<close>, and is the same one when the call returns.
\<close>

theorem to_html_pass_through:
  assumes "truthy (get_option opts ''display.notebook_repr_html'')"
    and "rows df = row0 # later"
  shows "pandas_df_to_html env opts df =
           (case to_html env (set_option opts ''display.max_colwidth'' (Opt_int (- 1))) df
                   \<lparr>escape = False,
                    formatters = map_of (map (\<lambda>c. (c, safe_tile_to_html env))
                                   (tile_cols (columns df) row0)),
                    render_links = True,
                    notebook = True,
                    max_rows = get_option opts ''display.max_rows'',
                    max_cols = get_option opts ''display.max_columns'',
                    show_dimensions = get_option opts ''display.show_dimensions''\<rparr> of
              Inl e \<Rightarrow> (Inl e, set_option opts ''display.max_colwidth'' (Opt_int (- 1)))
            | Inr return_html \<Rightarrow> (Inr (Some return_html), opts))
         \<and> set_option (snd (pandas_df_to_html env opts df)) ''display.max_colwidth''
             (get_option opts ''display.max_colwidth'') = opts"
proof -
  have kw: "to_html_kwargs env (set_option opts ''display.max_colwidth'' (Opt_int (- 1)))
        (tile_cols (columns df) row0) =
      \<lparr>escape = False,
       formatters = map_of (map (\<lambda>c. (c, safe_tile_to_html env)) (tile_cols (columns df) row0)),
       render_links = True,
       notebook = True,
       max_rows = get_option opts ''display.max_rows'',
       max_cols = get_option opts ''display.max_columns'',
       show_dimensions = get_option opts ''display.show_dimensions''\<rparr>"
    by (simp add: to_html_kwargs_def get_option_other)
  show ?thesis
    using pandas_df_to_html_render[OF assms, of env] pandas_df_to_html_frame[of env opts df]
    by (simp only: kw simp_thms)
qed

theorem to_html_pass_through_witness:
  "truthy (get_option demo_options ''display.notebook_repr_html'')
   \<and> rows demo_df = [demo_row (Tile_val demo_tile) ''1'', demo_row (Other_val ''nan'') ''2'']
   \<and> get_option demo_options ''display.max_rows'' = Opt_int 60
   \<and> get_option demo_options ''display.max_columns'' = Opt_int 20
   \<and> get_option demo_options ''display.show_dimensions'' = Opt_str ''truncate''
   \<and> pandas_df_to_html (demo_env\<lparr>to_html := \<lambda>opts df args.
           if \<not> escape args \<and> render_links args \<and> notebook args
              \<and> max_rows args = Opt_int 60 \<and> max_cols args = Opt_int 20
              \<and> show_dimensions args = Opt_str ''truncate''
              \<and> get_option opts ''display.max_colwidth'' = Opt_int (- 1)
           then Inr ''<table/>'' else Inl (External ''unexpected arguments'')\<rparr>)
         demo_options demo_df = (Inr (Some ''<table/>''), demo_options)"
proof -
  have h1: "truthy (get_option demo_options ''display.notebook_repr_html'')"
    by (simp add: get_option_def truthy_def demo_options_def)
  have h2: "rows demo_df = [demo_row (Tile_val demo_tile) ''1'', demo_row (Other_val ''nan'') ''2'']"
    by (simp add: demo_df_def)
  have o: "get_option demo_options ''display.max_rows'' = Opt_int 60"
    "get_option demo_options ''display.max_columns'' = Opt_int 20"
    "get_option demo_options ''display.show_dimensions'' = Opt_str ''truncate''"
    by (simp_all add: get_option_def demo_options_def)
  have w: "get_option (set_option demo_options ''display.max_colwidth'' (Opt_int (- 1)))
      ''display.max_colwidth'' = Opt_int (- 1)"
    by (simp add: get_option_def set_option_def)
  show ?thesis
    using h1 h2 o
      to_html_pass_through[OF h1 h2, of "demo_env\<lparr>to_html := \<lambda>opts df args.
           if \<not> escape args \<and> render_links args \<and> notebook args
              \<and> max_rows args = Opt_int 60 \<and> max_cols args = Opt_int 20
              \<and> show_dimensions args = Opt_str ''truncate''
              \<and> get_option opts ''display.max_colwidth'' = Opt_int (- 1)
           then Inr ''<table/>'' else Inl (External ''unexpected arguments'')\<rparr>"]
    by (simp add: w)
qed

text \<open>
  Claim C1. The option \<^verbatim>\<open>display.max_colwidth\<close> is saved, set to \<open>-1\<close> and put back only
  after \<^verbatim>\<open>df.to_html\<close> has returned: there is no \<^verbatim>\<open>try\<close>/\<^verbatim>\<open>finally\<close>. A table whose first
  row holds a tile without cells makes \<^verbatim>\<open>tile_to_html\<close> raise inside \<^verbatim>\<open>to_html\<close>; the
  exception leaves \<^verbatim>\<open>pandas_df_to_html\<close>, and the option stays \<open>-1\<close> although it was \<open>50\<close>
  before the call.
\<close>

theorem max_colwidth_left_unbounded_on_error:
  "get_option demo_options ''display.max_colwidth'' = Opt_int 50
   \<and> fst (pandas_df_to_html demo_env demo_options blank_df) = Inl TypeError
   \<and> get_option (snd (pandas_df_to_html demo_env demo_options blank_df))
       ''display.max_colwidth'' = Opt_int (- 1)"
  by (simp add: pandas_df_to_html_def demo_env_def demo_options_def blank_df_def get_option_def
      set_option_def truthy_def tile_cols_def isinstance_Tile_def item_isinstance_Tile_def
        series_getitem_def demo_row_def to_html_kwargs_def
      cells_to_html_def cell_html_def safe_tile_to_html_def tile_to_html_def tile_to_png_def
      blank_tile_def py_b64encode_def)

end
